theory Spec2Isabelle
  imports Complex_Main "HOL-Library.AList"
begin

section \<open>Numbers of the data frame\<close>

text \<open>
  A numeric cell of a pandas column is a float64. The model keeps the special values of
  float64 that the program's behaviour depends on (the two infinities that a division by
  zero produces, and NaN, which is also how pandas stores an empty cell) and takes the
  finite values as exact real numbers: rounding, overflow of finite results and the sign
  of zero are not modelled.
\<close>

datatype fl = Fin real | PInf | NInf | NaN

text \<open>Division of numpy float64 arrays: a zero divisor gives an infinity or NaN, it does not raise.\<close>

fun fdiv :: "fl \<Rightarrow> fl \<Rightarrow> fl" where
  "fdiv NaN y = NaN"
| "fdiv x NaN = NaN"
| "fdiv (Fin a) (Fin b) =
     (if b = 0 then (if 0 < a then PInf else if a < 0 then NInf else NaN) else Fin (a / b))"
| "fdiv (Fin a) y = Fin 0"
| "fdiv PInf (Fin b) = (if 0 \<le> b then PInf else NInf)"
| "fdiv NInf (Fin b) = (if 0 \<le> b then NInf else PInf)"
| "fdiv x y = NaN"

fun fsub :: "fl \<Rightarrow> fl \<Rightarrow> fl" where
  "fsub NaN y = NaN"
| "fsub x NaN = NaN"
| "fsub (Fin a) (Fin b) = Fin (a - b)"
| "fsub (Fin a) PInf = NInf"
| "fsub (Fin a) NInf = PInf"
| "fsub PInf PInf = NaN"
| "fsub NInf NInf = NaN"
| "fsub PInf y = PInf"
| "fsub NInf y = NInf"

fun fadd :: "fl \<Rightarrow> fl \<Rightarrow> fl" where
  "fadd NaN y = NaN"
| "fadd x NaN = NaN"
| "fadd (Fin a) (Fin b) = Fin (a + b)"
| "fadd (Fin a) y = y"
| "fadd PInf NInf = NaN"
| "fadd NInf PInf = NaN"
| "fadd x y = x"

fun fmul :: "fl \<Rightarrow> fl \<Rightarrow> fl" where
  "fmul NaN y = NaN"
| "fmul x NaN = NaN"
| "fmul (Fin a) (Fin b) = Fin (a * b)"
| "fmul (Fin a) PInf = (if 0 < a then PInf else if a < 0 then NInf else NaN)"
| "fmul (Fin a) NInf = (if 0 < a then NInf else if a < 0 then PInf else NaN)"
| "fmul PInf (Fin b) = (if 0 < b then PInf else if b < 0 then NInf else NaN)"
| "fmul NInf (Fin b) = (if 0 < b then NInf else if b < 0 then PInf else NaN)"
| "fmul PInf PInf = PInf"
| "fmul NInf NInf = PInf"
| "fmul x y = NInf"

text \<open>Comparisons: every comparison with NaN is false.\<close>

fun fle :: "fl \<Rightarrow> fl \<Rightarrow> bool" where
  "fle NaN y = False"
| "fle x NaN = False"
| "fle (Fin a) (Fin b) = (a \<le> b)"
| "fle NInf y = True"
| "fle x PInf = True"
| "fle x y = False"

fun flt :: "fl \<Rightarrow> fl \<Rightarrow> bool" where
  "flt NaN y = False"
| "flt x NaN = False"
| "flt (Fin a) (Fin b) = (a < b)"
| "flt PInf y = False"
| "flt x NInf = False"
| "flt x y = True"

definition fge :: "fl \<Rightarrow> fl \<Rightarrow> bool" where
  "fge x y = fle y x"

definition fgt :: "fl \<Rightarrow> fl \<Rightarrow> bool" where
  "fgt x y = flt y x"


text \<open>
  \<open>Series.clip(lower, upper)\<close> on one value: NaN is kept, a value below \<open>lower\<close> becomes
  \<open>lower\<close>, a value above \<open>upper\<close> becomes \<open>upper\<close>.
\<close>

definition clip :: "fl \<Rightarrow> fl \<Rightarrow> fl \<Rightarrow> fl" where
  "clip lower upper x =
     (if x = NaN then NaN else if flt x lower then lower else if fgt x upper then upper else x)"

text \<open>\<open>fillna(v)\<close> on one value.\<close>

definition fillna :: "fl \<Rightarrow> fl \<Rightarrow> fl" where
  "fillna v x = (if x = NaN then v else x)"

section \<open>Cells, columns and data frames\<close>

text \<open>
  A cell read from the sheet is a number or a text. A column is the list of its cells in row
  order; a data frame has an index (the row labels) and its columns by name, in column order.
  Arithmetic and ordering on a text cell raise TypeError, a column or a row label that is not
  there raises KeyError, a positional read past the end raises IndexError, and the position of
  an extremum of a column with no value raises ValueError.
\<close>

datatype cell = Num fl | Txt string

datatype error = KeyError string | TypeError | IndexError | ValueError

record frame =
  index :: "nat list"
  columns :: "(string \<times> cell list) list"

definition then_do :: "error + 'a \<Rightarrow> ('a \<Rightarrow> error + 'b) \<Rightarrow> error + 'b" where
  "then_do m f = (case m of Inl e \<Rightarrow> Inl e | Inr x \<Rightarrow> f x)"

text \<open>\<open>df[name]\<close> and \<open>df[name] = col\<close>.\<close>

definition getitem :: "frame \<Rightarrow> string \<Rightarrow> error + cell list" where
  "getitem df name = (case map_of (columns df) name of None \<Rightarrow> Inl (KeyError name) | Some c \<Rightarrow> Inr c)"

definition setitem :: "frame \<Rightarrow> string \<Rightarrow> cell list \<Rightarrow> frame" where
  "setitem df name col = df\<lparr>columns := AList.update name col (columns df)\<rparr>"

text \<open>Element-wise operations stop at the first cell that raises.\<close>

fun collect :: "(error + 'a) list \<Rightarrow> error + 'a list" where
  "collect [] = Inr []"
| "collect (r # rs) =
     (case r of Inl e \<Rightarrow> Inl e
      | Inr x \<Rightarrow> (case collect rs of Inl e \<Rightarrow> Inl e | Inr xs \<Rightarrow> Inr (x # xs)))"

fun cell_arith :: "(fl \<Rightarrow> fl \<Rightarrow> fl) \<Rightarrow> cell \<Rightarrow> cell \<Rightarrow> error + cell" where
  "cell_arith f (Num a) (Num b) = Inr (Num (f a b))"
| "cell_arith f x y = Inl TypeError"

fun cell_clip :: "fl \<Rightarrow> fl \<Rightarrow> cell \<Rightarrow> error + cell" where
  "cell_clip lower upper (Num a) = Inr (Num (clip lower upper a))"
| "cell_clip lower upper (Txt s) = Inl TypeError"

fun cell_fillna :: "fl \<Rightarrow> cell \<Rightarrow> cell" where
  "cell_fillna v (Num a) = Num (fillna v a)"
| "cell_fillna v (Txt s) = Txt s"

fun cell_ge :: "cell \<Rightarrow> fl \<Rightarrow> error + bool" where
  "cell_ge (Num a) t = Inr (fge a t)"
| "cell_ge (Txt s) t = Inl TypeError"


text \<open>Column with column (the two columns of one frame have the same index).\<close>

definition series_arith :: "(fl \<Rightarrow> fl \<Rightarrow> fl) \<Rightarrow> cell list \<Rightarrow> cell list \<Rightarrow> error + cell list" where
  "series_arith f xs ys = collect (map2 (cell_arith f) xs ys)"

text \<open>Scalar with column, as in \<open>1 - df["Failure Rate"]\<close>.\<close>

definition scalar_arith :: "(fl \<Rightarrow> fl \<Rightarrow> fl) \<Rightarrow> fl \<Rightarrow> cell list \<Rightarrow> error + cell list" where
  "scalar_arith f c ys = collect (map (cell_arith f (Num c)) ys)"

definition series_clip :: "fl \<Rightarrow> fl \<Rightarrow> cell list \<Rightarrow> error + cell list" where
  "series_clip lower upper xs = collect (map (cell_clip lower upper) xs)"

definition series_fillna :: "fl \<Rightarrow> cell list \<Rightarrow> cell list" where
  "series_fillna v xs = map (cell_fillna v) xs"

text \<open>\<open>Series.to_dict()\<close>: the pairs of row label and value.\<close>

definition to_dict :: "frame \<Rightarrow> cell list \<Rightarrow> (nat \<times> cell) list" where
  "to_dict df col = zip (index df) col"

section \<open>\<open>load_data\<close>\<close>

text \<open>
  The frame that \<open>pd.read_excel\<close> returns is the argument. Each definition below is one
  statement (or one group of like statements) of \<open>load_data\<close>, in the order of the source.
\<close>

text \<open>\<open>df["Availability"] = df["Current Lot Run Time (Hours)"] / df["Expected Lot Run Time (Hours)"]\<close>\<close>

definition set_availability :: "frame \<Rightarrow> error + frame" where
  "set_availability df =
     then_do (getitem df ''Current Lot Run Time (Hours)'') (\<lambda>cur.
     then_do (getitem df ''Expected Lot Run Time (Hours)'') (\<lambda>ex.
     then_do (series_arith fdiv cur ex) (\<lambda>a.
     Inr (setitem df ''Availability'' a))))"

text \<open>\<open>df["Performance"] = (df["Expected Lot Run Time (Hours)"] - df["Process Down time"]) / df["Expected Lot Run Time (Hours)"]\<close>\<close>

definition set_performance :: "frame \<Rightarrow> error + frame" where
  "set_performance df =
     then_do (getitem df ''Expected Lot Run Time (Hours)'') (\<lambda>ex.
     then_do (getitem df ''Process Down time'') (\<lambda>down.
     then_do (series_arith fsub ex down) (\<lambda>up.
     then_do (getitem df ''Expected Lot Run Time (Hours)'') (\<lambda>ex'.
     then_do (series_arith fdiv up ex') (\<lambda>p.
     Inr (setitem df ''Performance'' p))))))"

text \<open>\<open>df["Quality"] = 1 - df["Failure Rate"]\<close>\<close>

definition set_quality :: "frame \<Rightarrow> error + frame" where
  "set_quality df =
     then_do (getitem df ''Failure Rate'') (\<lambda>fr.
     then_do (scalar_arith fsub (Fin 1) fr) (\<lambda>q.
     Inr (setitem df ''Quality'' q)))"

text \<open>\<open>df[name] = df[name].clip(0, 1)\<close>\<close>

definition clip_column :: "string \<Rightarrow> frame \<Rightarrow> error + frame" where
  "clip_column name df =
     then_do (getitem df name) (\<lambda>c.
     then_do (series_clip (Fin 0) (Fin 1) c) (\<lambda>c'.
     Inr (setitem df name c')))"

text \<open>\<open>df["OEE"] = df["Availability"] * df["Performance"] * df["Quality"]\<close>\<close>

definition set_oee :: "frame \<Rightarrow> error + frame" where
  "set_oee df =
     then_do (getitem df ''Availability'') (\<lambda>a.
     then_do (getitem df ''Performance'') (\<lambda>p.
     then_do (series_arith fmul a p) (\<lambda>ap.
     then_do (getitem df ''Quality'') (\<lambda>q.
     then_do (series_arith fmul ap q) (\<lambda>oee.
     Inr (setitem df ''OEE'' oee))))))"

text \<open>
  \<open>df["OEE"].fillna(0, inplace=True)\<close>: the column object that \<open>df["OEE"]\<close> returns shares
  its data with the frame (pandas without copy-on-write), so the frame's column is the one
  filled.
\<close>

definition fillna_oee :: "frame \<Rightarrow> error + frame" where
  "fillna_oee df =
     then_do (getitem df ''OEE'') (\<lambda>oee.
     Inr (setitem df ''OEE'' (series_fillna (Fin 0) oee)))"

text \<open>
  The dictionary literal \<open>data_dict\<close>: its keys with the column each one reads, in the
  order of the literal, which is the order the columns are read in.
\<close>

definition data_dict_keys :: "(string \<times> string) list" where
  "data_dict_keys =
     [(''Steps'', ''Steps''),
      (''Running_Status'', ''Running Status''),
      (''Current_Lot_Number'', ''Current lot Number''),
      (''Material_Used'', ''Material Used (KG)''),
      (''Waste_Materials'', ''Waste Materials (KG)''),
      (''Current_Lot_Run_Time'', ''Current Lot Run Time (Hours)''),
      (''Expected_Lot_Run_Time'', ''Expected Lot Run Time (Hours)''),
      (''Process_Down_Time'', ''Process Down time''),
      (''Failure_Rate'', ''Failure Rate''),
      (''Units_Produced'', ''Units produced''),
      (''Availability'', ''Availability''),
      (''Performance'', ''Performance''),
      (''Quality'', ''Quality''),
      (''OEE'', ''OEE'')]"

fun build_dict :: "frame \<Rightarrow> (string \<times> string) list \<Rightarrow> error + (string \<times> (nat \<times> cell) list) list" where
  "build_dict df [] = Inr []"
| "build_dict df ((key, name) # rest) =
     then_do (getitem df name) (\<lambda>c.
     then_do (build_dict df rest) (\<lambda>d.
     Inr ((key, to_dict df c) # d)))"

definition load_data :: "frame \<Rightarrow> error + frame \<times> (string \<times> (nat \<times> cell) list) list" where
  "load_data df0 =
     then_do (set_availability df0) (\<lambda>df1.
     then_do (set_performance df1) (\<lambda>df2.
     then_do (set_quality df2) (\<lambda>df3.
     then_do (clip_column ''Availability'' df3) (\<lambda>df4.
     then_do (clip_column ''Performance'' df4) (\<lambda>df5.
     then_do (clip_column ''Quality'' df5) (\<lambda>df6.
     then_do (set_oee df6) (\<lambda>df7.
     then_do (fillna_oee df7) (\<lambda>df8.
     then_do (build_dict df8 data_dict_keys) (\<lambda>data_dict.
     Inr (df8, data_dict))))))))))"

section \<open>Shape of a frame\<close>

definition nrows :: "frame \<Rightarrow> nat" where
  "nrows df = length (index df)"

text \<open>Every column of a data frame has one cell for each row label.\<close>

definition wf_frame :: "frame \<Rightarrow> bool" where
  "wf_frame df = (\<forall>c \<in> snd ` set (columns df). length c = nrows df)"

text \<open>The columns of the sheet that the program reads by name.\<close>

definition required_columns :: "string list" where
  "required_columns =
     [''Steps'', ''Running Status'', ''Current lot Number'', ''Material Used (KG)'',
      ''Waste Materials (KG)'', ''Current Lot Run Time (Hours)'',
      ''Expected Lot Run Time (Hours)'', ''Process Down time'', ''Failure Rate'',
      ''Units produced'']"

text \<open>\<open>df[name].iloc[i]\<close>: one cell of a column, by position.\<close>

definition cell_at :: "frame \<Rightarrow> string \<Rightarrow> nat \<Rightarrow> error + cell" where
  "cell_at df name i =
     then_do (getitem df name) (\<lambda>c. if i < length c then Inr (c ! i) else Inl IndexError)"

text \<open>
  \<open>col.iloc[p]\<close> and \<open>df.iloc[p]\<close> for a list of positions of the column or frame: the
  cells or rows at these positions, in the order of the list.
\<close>

definition pick :: "nat list \<Rightarrow> 'a list \<Rightarrow> 'a list" where
  "pick p xs = map (\<lambda>i. xs ! i) p"

definition take_rows :: "nat list \<Rightarrow> frame \<Rightarrow> frame" where
  "take_rows p df =
     df\<lparr>index := pick p (index df),
        columns := map (\<lambda>(name, c). (name, pick p c)) (columns df)\<rparr>"

section \<open>Aggregates\<close>

text \<open>
  \<open>Series.sum()\<close>, \<open>mean()\<close>, \<open>min()\<close> and \<open>max()\<close> skip NaN. The sum of no value is 0; the
  mean, the minimum and the maximum of no value are NaN.
\<close>

fun numbers :: "cell list \<Rightarrow> error + fl list" where
  "numbers [] = Inr []"
| "numbers (Num a # xs) = then_do (numbers xs) (\<lambda>as. Inr (a # as))"
| "numbers (Txt s # xs) = Inl TypeError"

definition dropna :: "fl list \<Rightarrow> fl list" where
  "dropna xs = filter (\<lambda>x. x \<noteq> NaN) xs"

definition series_sum :: "cell list \<Rightarrow> error + fl" where
  "series_sum col = then_do (numbers col) (\<lambda>xs. Inr (foldl fadd (Fin 0) (dropna xs)))"

definition series_mean :: "cell list \<Rightarrow> error + fl" where
  "series_mean col =
     then_do (numbers col) (\<lambda>xs.
       Inr (fdiv (foldl fadd (Fin 0) (dropna xs)) (Fin (real (length (dropna xs))))))"

definition extremum :: "(fl \<Rightarrow> fl \<Rightarrow> bool) \<Rightarrow> fl list \<Rightarrow> fl" where
  "extremum better xs =
     (case dropna xs of [] \<Rightarrow> NaN | v # vs \<Rightarrow> foldl (\<lambda>m x. if better x m then x else m) v vs)"

definition series_min :: "cell list \<Rightarrow> error + fl" where
  "series_min col = then_do (numbers col) (\<lambda>xs. Inr (extremum flt xs))"

definition series_max :: "cell list \<Rightarrow> error + fl" where
  "series_max col = then_do (numbers col) (\<lambda>xs. Inr (extremum fgt xs))"

fun first_pos :: "('a \<Rightarrow> bool) \<Rightarrow> 'a list \<Rightarrow> nat option" where
  "first_pos P [] = None"
| "first_pos P (x # xs) = (if P x then Some 0 else map_option Suc (first_pos P xs))"

text \<open>\<open>idxmin()\<close> and \<open>idxmax()\<close>: the label of the first row that holds the extremum.\<close>

definition idx_extremum :: "(fl \<Rightarrow> fl \<Rightarrow> bool) \<Rightarrow> frame \<Rightarrow> cell list \<Rightarrow> error + nat" where
  "idx_extremum better df col =
     then_do (numbers col) (\<lambda>xs.
       case first_pos (\<lambda>x. x \<noteq> NaN \<and> x = extremum better xs) xs of
         None \<Rightarrow> Inl ValueError
       | Some i \<Rightarrow> if i < nrows df then Inr (index df ! i) else Inl IndexError)"

text \<open>\<open>df.loc[label, name]\<close>.\<close>

definition loc :: "frame \<Rightarrow> nat \<Rightarrow> string \<Rightarrow> error + cell" where
  "loc df label name =
     (case first_pos (\<lambda>l. l = label) (index df) of
        None \<Rightarrow> Inl (KeyError ''label'')
      | Some i \<Rightarrow> cell_at df name i)"

section \<open>Key performance indicators\<close>




section \<open>Views of the table\<close>


definition isin :: "cell list \<Rightarrow> cell list \<Rightarrow> bool list" where
  "isin col vals = map (\<lambda>c. c \<in> set vals) col"

definition series_ge :: "cell list \<Rightarrow> fl \<Rightarrow> error + bool list" where
  "series_ge col t = collect (map (\<lambda>c. cell_ge c t) col)"


definition mask_and :: "bool list \<Rightarrow> bool list \<Rightarrow> bool list" where
  "mask_and xs ys = map2 (\<and>) xs ys"

text \<open>\<open>df[mask]\<close>: the rows where the mask is true, with their labels.\<close>

definition select :: "bool list \<Rightarrow> 'a list \<Rightarrow> 'a list" where
  "select keep xs = map snd (filter fst (zip keep xs))"

definition getrows :: "frame \<Rightarrow> bool list \<Rightarrow> frame" where
  "getrows df keep =
     df\<lparr>index := select keep (index df),
        columns := map (\<lambda>(name, c). (name, select keep c)) (columns df)\<rparr>"




text \<open>The slider gives a whole number of percent; \<open>oee_threshold\<close> is that number \<open>/ 100\<close>.\<close>

definition oee_threshold :: "int \<Rightarrow> fl" where
  "oee_threshold percent = fdiv (Fin (real_of_int percent)) (Fin 100)"

text \<open>
  \<open>filtered_df = df[(df['Running Status'].isin(status_filter)) & (df['OEE'] >= oee_threshold)]\<close>
\<close>

definition filtered_df :: "frame \<Rightarrow> cell list \<Rightarrow> fl \<Rightarrow> error + frame" where
  "filtered_df df status_filter threshold =
     then_do (getitem df ''Running Status'') (\<lambda>status.
     then_do (getitem df ''OEE'') (\<lambda>oee.
     then_do (series_ge oee threshold) (\<lambda>above.
     Inr (getrows df (mask_and (isin status status_filter) above)))))"


section \<open>Summary statistics of the filtered table\<close>

text \<open>
  The two columns of the summary. Each one writes its figures when \<open>len(filtered_df) > 0\<close>
  and a line saying that nothing matches the filters otherwise.
\<close>

datatype summary =
  Summary nat fl fl fl
  | No_steps_match

datatype ranges =
  Ranges fl fl cell cell fl
  | No_data_matches

definition filtered_summary :: "frame \<Rightarrow> error + summary" where
  "filtered_summary fdf =
     (if nrows fdf > 0 then
        then_do (then_do (getitem fdf ''OEE'') series_mean) (\<lambda>avg_oee.
        then_do (then_do (getitem fdf ''Units produced'') series_sum) (\<lambda>units.
        then_do (then_do (getitem fdf ''Material Used (KG)'') series_sum) (\<lambda>used.
        Inr (Summary (nrows fdf) avg_oee units used))))
      else Inr No_steps_match)"

definition performance_ranges :: "frame \<Rightarrow> error + ranges" where
  "performance_ranges fdf =
     (if nrows fdf > 0 then
        then_do (then_do (getitem fdf ''OEE'') series_min) (\<lambda>lo.
        then_do (then_do (getitem fdf ''OEE'') series_max) (\<lambda>hi.
        then_do (then_do (getitem fdf ''OEE'') (idx_extremum fgt fdf)) (\<lambda>best.
        then_do (loc fdf best ''Steps'') (\<lambda>best_step.
        then_do (then_do (getitem fdf ''OEE'') (idx_extremum flt fdf)) (\<lambda>worst.
        then_do (loc fdf worst ''Steps'') (\<lambda>worst_step.
        then_do (then_do (getitem fdf ''Waste Materials (KG)'') series_sum) (\<lambda>waste.
        then_do (then_do (getitem fdf ''Material Used (KG)'') series_sum) (\<lambda>used.
        Inr (Ranges lo hi best_step worst_step (fmul (fdiv waste used) (Fin 100)))))))))))
      else Inr No_data_matches)"

section \<open>Observing the computed table\<close>

text \<open>
  \<open>load_data()[0][name].iloc[i]\<close>: the cell of column \<open>name\<close> in row \<open>i\<close> of the table that
  \<open>load_data\<close> computes from a sheet.
\<close>

definition computed :: "frame \<Rightarrow> string \<Rightarrow> nat \<Rightarrow> error + cell" where
  "computed df0 name i = then_do (load_data df0) (\<lambda>(df, data_dict). cell_at df name i)"

text \<open>A number of the interval from 0 to 1, bounds included; NaN and the infinities are not.\<close>

definition in_unit :: "fl \<Rightarrow> bool" where
  "in_unit x = (fle (Fin 0) x \<and> fle x (Fin 1))"

text \<open>
  The frame that \<open>pd.read_excel\<close> gives for a sheet with the ten columns of the schema: the
  row labels are the positions.
\<close>

definition sheet ::
  "cell list \<Rightarrow> cell list \<Rightarrow> cell list \<Rightarrow> cell list \<Rightarrow> cell list \<Rightarrow>
   cell list \<Rightarrow> cell list \<Rightarrow> cell list \<Rightarrow> cell list \<Rightarrow> cell list \<Rightarrow> frame" where
  "sheet steps status lot used waste cur ex down fr units =
     \<lparr>index = [0..<length steps],
      columns =
        [(''Steps'', steps),
         (''Running Status'', status),
         (''Current lot Number'', lot),
         (''Material Used (KG)'', used),
         (''Waste Materials (KG)'', waste),
         (''Current Lot Run Time (Hours)'', cur),
         (''Expected Lot Run Time (Hours)'', ex),
         (''Process Down time'', down),
         (''Failure Rate'', fr),
         (''Units produced'', units)]\<rparr>"

section \<open>Example sheets\<close>

text \<open>
  A sheet of four steps: an ordinary one, one that ran longer than expected and has a
  failure rate above 1, one with no run time out of no expected run time, and one that ran
  and was down although no run time was expected.
\<close>

definition example_sheet :: frame where
  "example_sheet =
     sheet [Txt ''Cutting'', Txt ''Stitching'', Txt ''Lasting'', Txt ''Packing'']
           [Txt ''Running'', Txt ''Stopped'', Txt ''Running'', Txt ''Idle'']
           [Txt ''L-01'', Txt ''L-02'', Txt ''L-03'', Txt ''L-04'']
           [Num (Fin 100), Num (Fin 80), Num (Fin 60), Num (Fin 20)]
           [Num (Fin 5), Num (Fin 8), Num (Fin 3), Num (Fin 1)]
           [Num (Fin 8), Num (Fin 12), Num (Fin 0), Num (Fin 5)]
           [Num (Fin 10), Num (Fin 10), Num (Fin 0), Num (Fin 0)]
           [Num (Fin 1), Num (Fin 2), Num (Fin 0), Num (Fin 1)]
           [Num (Fin (2 / 100)), Num (Fin (3 / 2)), Num (Fin 0), Num (Fin (1 / 10))]
           [Num (Fin 500), Num (Fin 400), Num (Fin 0), Num (Fin 50)]"

text \<open>A sheet of one step that has run for no time out of an expected run time of zero.\<close>

definition idle_sheet :: frame where
  "idle_sheet =
     sheet [Txt ''Cutting''] [Txt ''Running''] [Txt ''L-01''] [Num (Fin 10)] [Num (Fin 1)]
           [Num (Fin 0)] [Num (Fin 0)] [Num (Fin 0)] [Num (Fin 0)] [Num (Fin 5)]"


text \<open>A sheet of one step that has every column of the schema but \<open>Units produced\<close>.\<close>

definition sheet_without_units :: frame where
  "sheet_without_units =
     \<lparr>index = [0],
      columns =
        [(''Steps'', [Txt ''Cutting'']),
         (''Running Status'', [Txt ''Running'']),
         (''Current lot Number'', [Txt ''L-01'']),
         (''Material Used (KG)'', [Num (Fin 100)]),
         (''Waste Materials (KG)'', [Num (Fin 5)]),
         (''Current Lot Run Time (Hours)'', [Num (Fin 8)]),
         (''Expected Lot Run Time (Hours)'', [Num (Fin 10)]),
         (''Process Down time'', [Num (Fin 1)]),
         (''Failure Rate'', [Num (Fin (2 / 100))])]\<rparr>"

section \<open>The table and its default view\<close>

text \<open>The table that \<open>load_data\<close> returns, without the dictionary.\<close>

definition computed_table :: "frame \<Rightarrow> error + frame" where
  "computed_table df0 = then_do (load_data df0) (\<lambda>(df, data_dict). Inr df)"



text \<open>The table that \<open>load_data\<close> computes from \<open>idle_sheet\<close>.\<close>

definition idle_table :: frame where
  "idle_table =
     \<lparr>index = [0],
      columns =
        [(''Steps'', [Txt ''Cutting'']),
         (''Running Status'', [Txt ''Running'']),
         (''Current lot Number'', [Txt ''L-01'']),
         (''Material Used (KG)'', [Num (Fin 10)]),
         (''Waste Materials (KG)'', [Num (Fin 1)]),
         (''Current Lot Run Time (Hours)'', [Num (Fin 0)]),
         (''Expected Lot Run Time (Hours)'', [Num (Fin 0)]),
         (''Process Down time'', [Num (Fin 0)]),
         (''Failure Rate'', [Num (Fin 0)]),
         (''Units produced'', [Num (Fin 5)]),
         (''Availability'', [Num NaN]),
         (''Performance'', [Num NaN]),
         (''Quality'', [Num (Fin 1)]),
         (''OEE'', [Num (Fin 0)])]\<rparr>"

section \<open>Facts about the frame operations\<close>

lemma then_do_Inr: "then_do m f = Inr y \<longleftrightarrow> (\<exists>x. m = Inr x \<and> f x = Inr y)"
  by (cases m) (simp_all add: then_do_def)

lemma then_do_Inl: "then_do (Inl e) f = Inl e"
  by (simp add: then_do_def)

lemma getitem_setitem: "getitem (setitem df n c) m = (if m = n then Inr c else getitem df m)"
  by (simp add: getitem_def setitem_def update_conv')

lemma index_setitem: "index (setitem df n c) = index df"
  by (simp add: setitem_def)

lemma nrows_setitem: "nrows (setitem df n c) = nrows df"
  by (simp add: setitem_def nrows_def)

lemma getitem_length: "wf_frame df \<Longrightarrow> getitem df n = Inr c \<Longrightarrow> length c = nrows df"
  by (auto simp: wf_frame_def getitem_def split: option.splits dest!: map_of_SomeD)

lemma set_update_cases: "p \<in> set (AList.update k v al) \<Longrightarrow> p = (k, v) \<or> p \<in> set al"
  by (induction al) (auto split: if_splits)

lemma wf_setitem: "wf_frame df \<Longrightarrow> length c = nrows df \<Longrightarrow> wf_frame (setitem df n c)"
  unfolding wf_frame_def setitem_def nrows_def
  by (auto dest!: set_update_cases)

lemma collect_map_Inr: "collect (map Inr zs) = Inr zs"
  by (induction zs) simp_all

lemma collect_InrD: "collect rs = Inr zs \<Longrightarrow> rs = map Inr zs"
  by (induction rs arbitrary: zs) (auto split: sum.splits)

lemma collect_Inr: "collect rs = Inr zs \<longleftrightarrow> rs = map Inr zs"
  using collect_map_Inr collect_InrD by metis

lemma cell_arith_Inr: "cell_arith f x y = Inr z \<longleftrightarrow> (\<exists>a b. x = Num a \<and> y = Num b \<and> z = Num (f a b))"
  by (cases "(f, x, y)" rule: cell_arith.cases) auto

lemma cell_clip_Inr: "cell_clip l u x = Inr z \<longleftrightarrow> (\<exists>a. x = Num a \<and> z = Num (clip l u a))"
  by (cases x) auto

lemma map_Num_eq: "map Num as = map Num bs \<longleftrightarrow> as = bs"
  by (simp add: inj_map_eq_map inj_on_def)

lemma series_arith_Inr:
  assumes "series_arith f xs ys = Inr zs" and "length xs = length ys"
  obtains as bs where "xs = map Num as" and "ys = map Num bs" and "length as = length bs"
    and "zs = map Num (map2 f as bs)"
proof -
  have "\<exists>as bs. xs = map Num as \<and> ys = map Num bs \<and> length as = length bs
          \<and> zs = map Num (map2 f as bs)"
    using assms(2,1)
  proof (induction xs ys arbitrary: zs rule: list_induct2)
    case Nil
    then show ?case by (simp add: series_arith_def)
  next
    case (Cons x xs y ys)
    from Cons.prems obtain z zs' where z: "cell_arith f x y = Inr z"
      and rest: "series_arith f xs ys = Inr zs'" and zs: "zs = z # zs'"
      by (auto simp: series_arith_def split: sum.splits)
    from z obtain a b where ab: "x = Num a" "y = Num b" "z = Num (f a b)"
      by (auto simp: cell_arith_Inr)
    from Cons.IH[OF rest] obtain as bs where
      "xs = map Num as" "ys = map Num bs" "length as = length bs" "zs' = map Num (map2 f as bs)"
      by blast
    with ab zs have "x # xs = map Num (a # as) \<and> y # ys = map Num (b # bs)
        \<and> length (a # as) = length (b # bs) \<and> zs = map Num (map2 f (a # as) (b # bs))"
      by simp
    then show ?case by (intro exI[of _ "a # as"] exI[of _ "b # bs"])
  qed
  then show thesis using that by blast
qed

lemma series_arith_Num:
  "series_arith f (map Num as) (map Num bs) = Inr (map Num (map2 f as bs))"
proof (induction as arbitrary: bs)
  case Nil
  then show ?case by (simp add: series_arith_def)
next
  case (Cons a as)
  then show ?case by (cases bs) (simp_all add: series_arith_def)
qed

lemma scalar_arith_Num: "scalar_arith f c (map Num bs) = Inr (map Num (map (f c) bs))"
  by (induction bs) (simp_all add: scalar_arith_def)

lemma scalar_arith_Inr:
  assumes "scalar_arith f c ys = Inr zs"
  obtains bs where "ys = map Num bs" and "zs = map Num (map (f c) bs)"
proof -
  have "\<exists>bs. ys = map Num bs \<and> zs = map Num (map (f c) bs)"
    using assms
  proof (induction ys arbitrary: zs)
    case Nil
    then show ?case by (simp add: scalar_arith_def)
  next
    case (Cons y ys)
    from Cons.prems obtain z zs' where z: "cell_arith f (Num c) y = Inr z"
      and rest: "scalar_arith f c ys = Inr zs'" and zs: "zs = z # zs'"
      by (auto simp: scalar_arith_def split: sum.splits)
    from z obtain b where b: "y = Num b" "z = Num (f c b)"
      by (auto simp: cell_arith_Inr)
    from Cons.IH[OF rest] obtain bs where "ys = map Num bs" "zs' = map Num (map (f c) bs)"
      by blast
    with b zs have "y # ys = map Num (b # bs) \<and> zs = map Num (map (f c) (b # bs))"
      by simp
    then show ?case by (intro exI[of _ "b # bs"])
  qed
  then show thesis using that by blast
qed

lemma series_clip_Num: "series_clip l u (map Num as) = Inr (map Num (map (clip l u) as))"
  by (induction as) (simp_all add: series_clip_def)

lemma series_clip_Inr:
  assumes "series_clip l u xs = Inr zs"
  obtains as where "xs = map Num as" and "zs = map Num (map (clip l u) as)"
proof -
  have "\<exists>as. xs = map Num as \<and> zs = map Num (map (clip l u) as)"
    using assms
  proof (induction xs arbitrary: zs)
    case Nil
    then show ?case by (simp add: series_clip_def)
  next
    case (Cons x xs)
    from Cons.prems obtain z zs' where z: "cell_clip l u x = Inr z"
      and rest: "series_clip l u xs = Inr zs'" and zs: "zs = z # zs'"
      by (auto simp: series_clip_def split: sum.splits)
    from z obtain a where a: "x = Num a" "z = Num (clip l u a)"
      by (auto simp: cell_clip_Inr)
    from Cons.IH[OF rest] obtain as where "xs = map Num as" "zs' = map Num (map (clip l u) as)"
      by blast
    with a zs have "x # xs = map Num (a # as) \<and> zs = map Num (map (clip l u) (a # as))"
      by simp
    then show ?case by (intro exI[of _ "a # as"])
  qed
  then show thesis using that by blast
qed

lemma series_fillna_Num: "series_fillna v (map Num as) = map Num (map (fillna v) as)"
  by (simp add: series_fillna_def)

lemma set_availability_Inr:
  assumes "wf_frame df" and "set_availability df = Inr df'"
  obtains cs es where
    "getitem df ''Current Lot Run Time (Hours)'' = Inr (map Num cs)"
    "getitem df ''Expected Lot Run Time (Hours)'' = Inr (map Num es)"
    "length cs = nrows df" "length es = nrows df"
    "df' = setitem df ''Availability'' (map Num (map2 fdiv cs es))"
proof -
  from assms(2) obtain cur ex a where
    cur: "getitem df ''Current Lot Run Time (Hours)'' = Inr cur" and
    ex: "getitem df ''Expected Lot Run Time (Hours)'' = Inr ex" and
    a: "series_arith fdiv cur ex = Inr a" and
    df': "df' = setitem df ''Availability'' a"
    unfolding set_availability_def then_do_Inr by auto
  have len: "length cur = nrows df" "length ex = nrows df"
    using getitem_length[OF assms(1)] cur ex by auto
  then have "length cur = length ex" by simp
  from series_arith_Inr[OF a this] obtain cs es where
    "cur = map Num cs" "ex = map Num es" "length cs = length es" "a = map Num (map2 fdiv cs es)"
    by blast
  with cur ex len df' show thesis by (intro that[of cs es]) simp_all
qed

lemma set_performance_Inr:
  assumes "wf_frame df" and "set_performance df = Inr df'"
  obtains es ds where
    "getitem df ''Expected Lot Run Time (Hours)'' = Inr (map Num es)"
    "getitem df ''Process Down time'' = Inr (map Num ds)"
    "length es = nrows df" "length ds = nrows df"
    "df' = setitem df ''Performance'' (map Num (map2 fdiv (map2 fsub es ds) es))"
proof -
  from assms(2) obtain ex down up p where
    ex: "getitem df ''Expected Lot Run Time (Hours)'' = Inr ex" and
    down: "getitem df ''Process Down time'' = Inr down" and
    up: "series_arith fsub ex down = Inr up" and
    p: "series_arith fdiv up ex = Inr p" and
    df': "df' = setitem df ''Performance'' p"
    unfolding set_performance_def then_do_Inr by auto
  have len: "length ex = nrows df" "length down = nrows df"
    using getitem_length[OF assms(1)] ex down by auto
  then have "length ex = length down" by simp
  from series_arith_Inr[OF up this] obtain es ds where
    eds: "ex = map Num es" "down = map Num ds" "length es = length ds"
      "up = map Num (map2 fsub es ds)"
    by blast
  have "series_arith fdiv up ex = Inr (map Num (map2 fdiv (map2 fsub es ds) es))"
    unfolding eds by (rule series_arith_Num)
  with p have "p = map Num (map2 fdiv (map2 fsub es ds) es)" by simp
  with ex down len df' eds show thesis by (intro that[of es ds]) simp_all
qed

lemma set_quality_Inr:
  assumes "wf_frame df" and "set_quality df = Inr df'"
  obtains rs where
    "getitem df ''Failure Rate'' = Inr (map Num rs)"
    "length rs = nrows df"
    "df' = setitem df ''Quality'' (map Num (map (fsub (Fin 1)) rs))"
proof -
  from assms(2) obtain fr q where
    fr: "getitem df ''Failure Rate'' = Inr fr" and
    q: "scalar_arith fsub (Fin 1) fr = Inr q" and
    df': "df' = setitem df ''Quality'' q"
    unfolding set_quality_def then_do_Inr by auto
  have len: "length fr = nrows df"
    using getitem_length[OF assms(1)] fr by auto
  from scalar_arith_Inr[OF q] obtain rs where
    "fr = map Num rs" "q = map Num (map (fsub (Fin 1)) rs)"
    by blast
  with fr len df' show thesis by (intro that[of rs]) simp_all
qed

lemma clip_column_Inr:
  assumes "clip_column name df = Inr df'"
  obtains as where
    "getitem df name = Inr (map Num as)"
    "df' = setitem df name (map Num (map (clip (Fin 0) (Fin 1)) as))"
proof -
  from assms obtain c c' where
    c: "getitem df name = Inr c" and
    c': "series_clip (Fin 0) (Fin 1) c = Inr c'" and
    df': "df' = setitem df name c'"
    unfolding clip_column_def then_do_Inr by auto
  from series_clip_Inr[OF c'] obtain as where
    "c = map Num as" "c' = map Num (map (clip (Fin 0) (Fin 1)) as)"
    by blast
  with c df' show thesis by (intro that[of as]) simp_all
qed

lemma clip_column_Num:
  "getitem df name = Inr (map Num as) \<Longrightarrow>
   clip_column name df = Inr (setitem df name (map Num (map (clip (Fin 0) (Fin 1)) as)))"
  by (simp add: clip_column_def then_do_def series_clip_Num)

lemma set_oee_Num:
  assumes "getitem df ''Availability'' = Inr (map Num av)"
    and "getitem df ''Performance'' = Inr (map Num pf)"
    and "getitem df ''Quality'' = Inr (map Num ql)"
  shows "set_oee df = Inr (setitem df ''OEE'' (map Num (map2 fmul (map2 fmul av pf) ql)))"
  by (simp only: set_oee_def assms then_do_def series_arith_Num sum.case)

lemma fillna_oee_Num:
  "getitem df ''OEE'' = Inr (map Num oe) \<Longrightarrow>
   fillna_oee df = Inr (setitem df ''OEE'' (map Num (map (fillna (Fin 0)) oe)))"
  by (simp add: fillna_oee_def then_do_def series_fillna_Num)

lemma load_data_Inr:
  assumes wf: "wf_frame df0" and ld: "load_data df0 = Inr (df, dd)"
  obtains cs es ds rs av pf ql where
    "length cs = nrows df0" "length es = nrows df0" "length ds = nrows df0" "length rs = nrows df0"
    "getitem df0 ''Current Lot Run Time (Hours)'' = Inr (map Num cs)"
    "getitem df0 ''Expected Lot Run Time (Hours)'' = Inr (map Num es)"
    "getitem df0 ''Process Down time'' = Inr (map Num ds)"
    "getitem df0 ''Failure Rate'' = Inr (map Num rs)"
    "av = map (clip (Fin 0) (Fin 1)) (map2 fdiv cs es)"
    "pf = map (clip (Fin 0) (Fin 1)) (map2 fdiv (map2 fsub es ds) es)"
    "ql = map (clip (Fin 0) (Fin 1)) (map (fsub (Fin 1)) rs)"
    "getitem df ''Availability'' = Inr (map Num av)"
    "getitem df ''Performance'' = Inr (map Num pf)"
    "getitem df ''Quality'' = Inr (map Num ql)"
    "getitem df ''OEE'' = Inr (map Num (map (fillna (Fin 0)) (map2 fmul (map2 fmul av pf) ql)))"
    "wf_frame df" "index df = index df0"
    "\<And>m. m \<notin> {''Availability'', ''Performance'', ''Quality'', ''OEE''} \<Longrightarrow>
        getitem df m = getitem df0 m"
proof -
  from ld obtain df1 df2 df3 df4 df5 df6 df7 where
    s1: "set_availability df0 = Inr df1" and
    s2: "set_performance df1 = Inr df2" and
    s3: "set_quality df2 = Inr df3" and
    s4: "clip_column ''Availability'' df3 = Inr df4" and
    s5: "clip_column ''Performance'' df4 = Inr df5" and
    s6: "clip_column ''Quality'' df5 = Inr df6" and
    s7: "set_oee df6 = Inr df7" and
    s8: "fillna_oee df7 = Inr df"
    unfolding load_data_def then_do_Inr by auto
  from set_availability_Inr[OF wf s1] obtain cs es where
    cs: "getitem df0 ''Current Lot Run Time (Hours)'' = Inr (map Num cs)" and
    es: "getitem df0 ''Expected Lot Run Time (Hours)'' = Inr (map Num es)" and
    lcs: "length cs = nrows df0" and les: "length es = nrows df0" and
    df1: "df1 = setitem df0 ''Availability'' (map Num (map2 fdiv cs es))"
    by blast
  have wf1: "wf_frame df1" and n1: "nrows df1 = nrows df0"
    unfolding df1 using wf lcs les by (simp_all add: wf_setitem nrows_setitem)
  from set_performance_Inr[OF wf1 s2] obtain es' ds where
    es': "getitem df1 ''Expected Lot Run Time (Hours)'' = Inr (map Num es')" and
    ds: "getitem df1 ''Process Down time'' = Inr (map Num ds)" and
    lds: "length ds = nrows df1" and
    df2: "df2 = setitem df1 ''Performance'' (map Num (map2 fdiv (map2 fsub es' ds) es'))"
    by blast
  from es' es have [simp]: "es' = es"
    by (simp add: df1 getitem_setitem map_Num_eq)
  have ds0: "getitem df0 ''Process Down time'' = Inr (map Num ds)"
    using ds by (simp add: df1 getitem_setitem)
  have wf2: "wf_frame df2" and n2: "nrows df2 = nrows df0"
    unfolding df2 using wf1 n1 lds les by (simp_all add: wf_setitem nrows_setitem)
  from set_quality_Inr[OF wf2 s3] obtain rs where
    rs: "getitem df2 ''Failure Rate'' = Inr (map Num rs)" and
    lrs: "length rs = nrows df2" and
    df3: "df3 = setitem df2 ''Quality'' (map Num (map (fsub (Fin 1)) rs))"
    by blast
  have rs0: "getitem df0 ''Failure Rate'' = Inr (map Num rs)"
    using rs by (simp add: df2 df1 getitem_setitem)
  have wf3: "wf_frame df3" and n3: "nrows df3 = nrows df0"
    unfolding df3 using wf2 n2 lrs by (simp_all add: wf_setitem nrows_setitem)
  define av where "av = map (clip (Fin 0) (Fin 1)) (map2 fdiv cs es)"
  define pf where "pf = map (clip (Fin 0) (Fin 1)) (map2 fdiv (map2 fsub es ds) es)"
  define ql where "ql = map (clip (Fin 0) (Fin 1)) (map (fsub (Fin 1)) rs)"
  define oe where "oe = map2 fmul (map2 fmul av pf) ql"
  have lav: "length av = nrows df0" and lpf: "length pf = nrows df0"
    and lql: "length ql = nrows df0" and loe: "length oe = nrows df0"
    using lcs les lds lrs n1 n2 by (simp_all add: av_def pf_def ql_def oe_def)
  have "getitem df3 ''Availability'' = Inr (map Num (map2 fdiv cs es))"
    by (simp add: df3 df2 df1 getitem_setitem)
  from clip_column_Num[OF this] s4
  have df4: "df4 = setitem df3 ''Availability'' (map Num av)"
    by (simp add: av_def)
  have wf4: "wf_frame df4"
    unfolding df4 using wf3 n3 lav by (simp add: wf_setitem)
  have "getitem df4 ''Performance'' = Inr (map Num (map2 fdiv (map2 fsub es ds) es))"
    by (simp add: df4 df3 df2 getitem_setitem)
  from clip_column_Num[OF this] s5
  have df5: "df5 = setitem df4 ''Performance'' (map Num pf)"
    by (simp add: pf_def)
  have wf5: "wf_frame df5"
    unfolding df5 using wf4 n3 lpf by (simp add: wf_setitem df4 nrows_setitem)
  have "getitem df5 ''Quality'' = Inr (map Num (map (fsub (Fin 1)) rs))"
    by (simp add: df5 df4 df3 getitem_setitem)
  from clip_column_Num[OF this] s6
  have df6: "df6 = setitem df5 ''Quality'' (map Num ql)"
    by (simp add: ql_def)
  have wf6: "wf_frame df6"
    unfolding df6 using wf5 n3 lql by (simp add: wf_setitem df5 df4 nrows_setitem)
  have g6: "getitem df6 ''Availability'' = Inr (map Num av)"
    "getitem df6 ''Performance'' = Inr (map Num pf)"
    "getitem df6 ''Quality'' = Inr (map Num ql)"
    by (simp_all add: df6 df5 df4 getitem_setitem)
  from set_oee_Num[OF g6] s7
  have df7: "df7 = setitem df6 ''OEE'' (map Num oe)"
    by (simp add: oe_def)
  have wf7: "wf_frame df7"
    unfolding df7 using wf6 n3 loe by (simp add: wf_setitem df6 df5 df4 nrows_setitem)
  have "getitem df7 ''OEE'' = Inr (map Num oe)"
    by (simp add: df7 getitem_setitem)
  from fillna_oee_Num[OF this] s8
  have df8: "df = setitem df7 ''OEE'' (map Num (map (fillna (Fin 0)) oe))"
    by simp
  have wf8: "wf_frame df"
    unfolding df8 using wf7 n3 loe
    by (simp add: wf_setitem df7 df6 df5 df4 nrows_setitem)
  have idx: "index df = index df0"
    by (simp add: df8 df7 df6 df5 df4 df3 df2 df1 index_setitem)
  have other: "getitem df m = getitem df0 m"
    if "m \<notin> {''Availability'', ''Performance'', ''Quality'', ''OEE''}" for m
    using that by (simp add: df8 df7 df6 df5 df4 df3 df2 df1 getitem_setitem)
  have g8: "getitem df ''Availability'' = Inr (map Num av)"
    "getitem df ''Performance'' = Inr (map Num pf)"
    "getitem df ''Quality'' = Inr (map Num ql)"
    "getitem df ''OEE'' = Inr (map Num (map (fillna (Fin 0)) (map2 fmul (map2 fmul av pf) ql)))"
    using g6 by (simp_all add: df8 df7 getitem_setitem oe_def)
  show thesis
    by (rule that[OF lcs les _ _ cs es ds0 rs0 av_def pf_def ql_def g8 wf8 idx other])
      (use lds lrs n1 n2 in simp_all)
qed

lemma computed_rows:
  assumes wf: "wf_frame df0" and ok: "\<not> isl (load_data df0)" and i: "i < nrows df0"
  obtains c e d r a p q where
    "cell_at df0 ''Current Lot Run Time (Hours)'' i = Inr (Num c)"
    "cell_at df0 ''Expected Lot Run Time (Hours)'' i = Inr (Num e)"
    "cell_at df0 ''Process Down time'' i = Inr (Num d)"
    "cell_at df0 ''Failure Rate'' i = Inr (Num r)"
    "a = clip (Fin 0) (Fin 1) (fdiv c e)"
    "p = clip (Fin 0) (Fin 1) (fdiv (fsub e d) e)"
    "q = clip (Fin 0) (Fin 1) (fsub (Fin 1) r)"
    "computed df0 ''Availability'' i = Inr (Num a)"
    "computed df0 ''Performance'' i = Inr (Num p)"
    "computed df0 ''Quality'' i = Inr (Num q)"
    "computed df0 ''OEE'' i = Inr (Num (fillna (Fin 0) (fmul (fmul a p) q)))"
proof -
  from ok obtain df dd where ld: "load_data df0 = Inr (df, dd)"
    by (cases "load_data df0") auto
  show thesis
  proof (rule load_data_Inr[OF wf ld])
    fix cs es ds rs av pf ql :: "fl list"
    assume len: "length cs = nrows df0" "length es = nrows df0" "length ds = nrows df0"
      "length rs = nrows df0"
    assume src: "getitem df0 ''Current Lot Run Time (Hours)'' = Inr (map Num cs)"
      "getitem df0 ''Expected Lot Run Time (Hours)'' = Inr (map Num es)"
      "getitem df0 ''Process Down time'' = Inr (map Num ds)"
      "getitem df0 ''Failure Rate'' = Inr (map Num rs)"
    assume av: "av = map (clip (Fin 0) (Fin 1)) (map2 fdiv cs es)"
    assume pf: "pf = map (clip (Fin 0) (Fin 1)) (map2 fdiv (map2 fsub es ds) es)"
    assume ql: "ql = map (clip (Fin 0) (Fin 1)) (map (fsub (Fin 1)) rs)"
    assume out: "getitem df ''Availability'' = Inr (map Num av)"
      "getitem df ''Performance'' = Inr (map Num pf)"
      "getitem df ''Quality'' = Inr (map Num ql)"
      "getitem df ''OEE'' = Inr (map Num (map (fillna (Fin 0)) (map2 fmul (map2 fmul av pf) ql)))"
    have lens: "length av = nrows df0" "length pf = nrows df0" "length ql = nrows df0"
      using len by (simp_all add: av pf ql)
    have avi: "av ! i = clip (Fin 0) (Fin 1) (fdiv (cs ! i) (es ! i))"
      using i len by (simp add: av)
    have pfi: "pf ! i = clip (Fin 0) (Fin 1) (fdiv (fsub (es ! i) (ds ! i)) (es ! i))"
      using i len by (simp add: pf)
    have qli: "ql ! i = clip (Fin 0) (Fin 1) (fsub (Fin 1) (rs ! i))"
      using i len by (simp add: ql)
    have c1: "cell_at df0 ''Current Lot Run Time (Hours)'' i = Inr (Num (cs ! i))"
      using i len by (simp add: cell_at_def src then_do_def)
    have c2: "cell_at df0 ''Expected Lot Run Time (Hours)'' i = Inr (Num (es ! i))"
      using i len by (simp add: cell_at_def src then_do_def)
    have c3: "cell_at df0 ''Process Down time'' i = Inr (Num (ds ! i))"
      using i len by (simp add: cell_at_def src then_do_def)
    have c4: "cell_at df0 ''Failure Rate'' i = Inr (Num (rs ! i))"
      using i len by (simp add: cell_at_def src then_do_def)
    have o1: "computed df0 ''Availability'' i = Inr (Num (av ! i))"
      using i lens by (simp add: computed_def ld cell_at_def out then_do_def)
    have o2: "computed df0 ''Performance'' i = Inr (Num (pf ! i))"
      using i lens by (simp add: computed_def ld cell_at_def out then_do_def)
    have o3: "computed df0 ''Quality'' i = Inr (Num (ql ! i))"
      using i lens by (simp add: computed_def ld cell_at_def out then_do_def)
    have o4: "computed df0 ''OEE'' i = Inr (Num (fillna (Fin 0) (fmul (fmul (av ! i) (pf ! i)) (ql ! i))))"
      using i lens by (simp add: computed_def ld cell_at_def out then_do_def)
    show thesis
      by (rule that[of "cs ! i" "es ! i" "ds ! i" "rs ! i" "av ! i" "pf ! i" "ql ! i",
            OF c1 c2 c3 c4 avi pfi qli o1 o2 o3 o4])
  qed
qed

lemmas eval_defs = computed_def load_data_def set_availability_def set_performance_def
  set_quality_def clip_column_def set_oee_def fillna_oee_def data_dict_keys_def then_do_def
  getitem_def setitem_def series_arith_def scalar_arith_def series_clip_def series_fillna_def
  to_dict_def cell_at_def sheet_def clip_def fillna_def fgt_def fge_def

lemma example_wf: "wf_frame example_sheet"
  by (simp add: example_sheet_def sheet_def wf_frame_def nrows_def)

lemma example_nrows: "nrows example_sheet = 4"
  by (simp add: example_sheet_def sheet_def nrows_def)

lemma example_loads: "\<not> isl (load_data example_sheet)"
  by (simp add: example_sheet_def eval_defs)

section \<open>Bounds of the derived values\<close>



lemma clip_NaN: "clip (Fin 0) (Fin 1) x = NaN \<longleftrightarrow> x = NaN"
  by (cases x) (simp_all add: clip_def fgt_def)






lemma cell_at_Num_inject: "cell_at df n i = Inr (Num x) \<Longrightarrow> cell_at df n i = Inr (Num y) \<Longrightarrow> x = y"
  by simp

section \<open>OEE when no run time is expected\<close>





section \<open>Clamping\<close>

lemma clip_saturates:
  "(flt x (Fin 0) \<longrightarrow> clip (Fin 0) (Fin 1) x = Fin 0) \<and>
   (fgt x (Fin 1) \<longrightarrow> clip (Fin 0) (Fin 1) x = Fin 1) \<and>
   (in_unit x \<longrightarrow> clip (Fin 0) (Fin 1) x = x)"
  by (cases x) (auto simp: clip_def fgt_def in_unit_def)

text \<open>
  C8: each of availability, performance and quality is its raw value clamped to the interval
  from 0 to 1 by saturation: a raw value below 0 becomes 0, a raw value above 1 becomes 1, and
  a raw value in the interval is kept; a row with a current run time of 12 and an expected run
  time of 10 has the raw availability 1.2 and the availability 1.
\<close>

theorem clamped_by_saturation:
  assumes "wf_frame df0" and "\<not> isl (load_data df0)" and "i < nrows df0"
    and "cell_at df0 ''Current Lot Run Time (Hours)'' i = Inr (Num c)"
    and "cell_at df0 ''Expected Lot Run Time (Hours)'' i = Inr (Num e)"
    and "cell_at df0 ''Process Down time'' i = Inr (Num d)"
    and "cell_at df0 ''Failure Rate'' i = Inr (Num r)"
  shows
    "(flt (fdiv c e) (Fin 0) \<longrightarrow> computed df0 ''Availability'' i = Inr (Num (Fin 0))) \<and>
     (fgt (fdiv c e) (Fin 1) \<longrightarrow> computed df0 ''Availability'' i = Inr (Num (Fin 1))) \<and>
     (in_unit (fdiv c e) \<longrightarrow> computed df0 ''Availability'' i = Inr (Num (fdiv c e))) \<and>
     (flt (fdiv (fsub e d) e) (Fin 0) \<longrightarrow> computed df0 ''Performance'' i = Inr (Num (Fin 0))) \<and>
     (fgt (fdiv (fsub e d) e) (Fin 1) \<longrightarrow> computed df0 ''Performance'' i = Inr (Num (Fin 1))) \<and>
     (in_unit (fdiv (fsub e d) e) \<longrightarrow>
        computed df0 ''Performance'' i = Inr (Num (fdiv (fsub e d) e))) \<and>
     (flt (fsub (Fin 1) r) (Fin 0) \<longrightarrow> computed df0 ''Quality'' i = Inr (Num (Fin 0))) \<and>
     (fgt (fsub (Fin 1) r) (Fin 1) \<longrightarrow> computed df0 ''Quality'' i = Inr (Num (Fin 1))) \<and>
     (in_unit (fsub (Fin 1) r) \<longrightarrow> computed df0 ''Quality'' i = Inr (Num (fsub (Fin 1) r))) \<and>
     (c = Fin 12 \<and> e = Fin 10 \<longrightarrow>
        fdiv c e = Fin (12 / 10) \<and> computed df0 ''Availability'' i = Inr (Num (Fin 1)))"
proof -
  from computed_rows[OF assms(1-3)] obtain c' e' d' r' a p q where
    src: "cell_at df0 ''Current Lot Run Time (Hours)'' i = Inr (Num c')"
      "cell_at df0 ''Expected Lot Run Time (Hours)'' i = Inr (Num e')"
      "cell_at df0 ''Process Down time'' i = Inr (Num d')"
      "cell_at df0 ''Failure Rate'' i = Inr (Num r')" and
    a: "a = clip (Fin 0) (Fin 1) (fdiv c' e')" and
    p: "p = clip (Fin 0) (Fin 1) (fdiv (fsub e' d') e')" and
    q: "q = clip (Fin 0) (Fin 1) (fsub (Fin 1) r')" and
    out: "computed df0 ''Availability'' i = Inr (Num a)"
      "computed df0 ''Performance'' i = Inr (Num p)"
      "computed df0 ''Quality'' i = Inr (Num q)"
    by metis
  from src assms(4-7) have eq: "c' = c" "e' = e" "d' = d" "r' = r"
    by simp_all
  have av: "computed df0 ''Availability'' i = Inr (Num (clip (Fin 0) (Fin 1) (fdiv c e)))"
    using out(1) a eq by simp
  have pf: "computed df0 ''Performance'' i = Inr (Num (clip (Fin 0) (Fin 1) (fdiv (fsub e d) e)))"
    using out(2) p eq by simp
  have ql: "computed df0 ''Quality'' i = Inr (Num (clip (Fin 0) (Fin 1) (fsub (Fin 1) r)))"
    using out(3) q eq by simp
  have ex: "fdiv c e = Fin (12 / 10) \<and> computed df0 ''Availability'' i = Inr (Num (Fin 1))"
    if "c = Fin 12" "e = Fin 10"
    using av that by (simp add: clip_def fgt_def)
  show ?thesis
    using clip_saturates[of "fdiv c e"] clip_saturates[of "fdiv (fsub e d) e"]
      clip_saturates[of "fsub (Fin 1) r"] ex
    unfolding av pf ql by simp
qed

text \<open>
  C8 on the second row of the example sheet: the raw availability 12 / 10 becomes 1, the raw
  performance 8 / 10 is kept and the raw quality 1 - 1.5 becomes 0.
\<close>

theorem clamped_by_saturation_witness:
  "wf_frame example_sheet \<and> \<not> isl (load_data example_sheet) \<and> 1 < nrows example_sheet \<and>
   cell_at example_sheet ''Current Lot Run Time (Hours)'' 1 = Inr (Num (Fin 12)) \<and>
   cell_at example_sheet ''Expected Lot Run Time (Hours)'' 1 = Inr (Num (Fin 10)) \<and>
   cell_at example_sheet ''Process Down time'' 1 = Inr (Num (Fin 2)) \<and>
   cell_at example_sheet ''Failure Rate'' 1 = Inr (Num (Fin (3 / 2))) \<and>
   fgt (fdiv (Fin 12) (Fin 10)) (Fin 1) \<and>
   computed example_sheet ''Availability'' 1 = Inr (Num (Fin 1)) \<and>
   in_unit (fdiv (fsub (Fin 10) (Fin 2)) (Fin 10)) \<and>
   computed example_sheet ''Performance'' 1 = Inr (Num (Fin (8 / 10))) \<and>
   flt (fsub (Fin 1) (Fin (3 / 2))) (Fin 0) \<and>
   computed example_sheet ''Quality'' 1 = Inr (Num (Fin 0))"
proof -
  have n: "1 < nrows example_sheet" by (simp add: example_nrows)
  have c: "cell_at example_sheet ''Current Lot Run Time (Hours)'' 1 = Inr (Num (Fin 12))"
    by (simp add: example_sheet_def eval_defs)
  have e: "cell_at example_sheet ''Expected Lot Run Time (Hours)'' 1 = Inr (Num (Fin 10))"
    by (simp add: example_sheet_def eval_defs)
  have d: "cell_at example_sheet ''Process Down time'' 1 = Inr (Num (Fin 2))"
    by (simp add: example_sheet_def eval_defs)
  have r: "cell_at example_sheet ''Failure Rate'' 1 = Inr (Num (Fin (3 / 2)))"
    by (simp add: example_sheet_def eval_defs)
  show ?thesis
    using clamped_by_saturation[OF example_wf example_loads n c e d r]
      example_wf example_loads n c e d r
    by (simp add: fgt_def in_unit_def)
qed

section \<open>Missing columns\<close>

lemma isl_getitem: "isl (getitem df name) \<longleftrightarrow> name \<notin> fst ` set (columns df)"
  by (cases "map_of (columns df) name") (simp_all add: getitem_def map_of_eq_None_iff[symmetric])

lemma isl_getitem_setitem:
  "isl (getitem (setitem df n c) m) \<longleftrightarrow> m \<noteq> n \<and> isl (getitem df m)"
  by (simp add: getitem_setitem)

lemma set_availability_reads:
  assumes "set_availability df = Inr df'"
  shows "\<exists>c. df' = setitem df ''Availability'' c"
    and "\<not> isl (getitem df ''Current Lot Run Time (Hours)'')"
    and "\<not> isl (getitem df ''Expected Lot Run Time (Hours)'')"
  using assms unfolding set_availability_def then_do_Inr by auto

lemma set_performance_reads:
  assumes "set_performance df = Inr df'"
  shows "\<exists>c. df' = setitem df ''Performance'' c"
    and "\<not> isl (getitem df ''Process Down time'')"
  using assms unfolding set_performance_def then_do_Inr by auto

lemma set_quality_reads:
  assumes "set_quality df = Inr df'"
  shows "\<exists>c. df' = setitem df ''Quality'' c"
    and "\<not> isl (getitem df ''Failure Rate'')"
  using assms unfolding set_quality_def then_do_Inr by auto

lemma clip_column_writes:
  assumes "clip_column name df = Inr df'"
  shows "\<exists>c. df' = setitem df name c"
  using assms unfolding clip_column_def then_do_Inr by auto

lemma set_oee_writes:
  assumes "set_oee df = Inr df'"
  shows "\<exists>c. df' = setitem df ''OEE'' c"
  using assms unfolding set_oee_def then_do_Inr by auto

lemma fillna_oee_writes:
  assumes "fillna_oee df = Inr df'"
  shows "\<exists>c. df' = setitem df ''OEE'' c"
  using assms unfolding fillna_oee_def then_do_Inr by auto

lemma build_dict_reads:
  "build_dict df ks = Inr d \<Longrightarrow> (k, name) \<in> set ks \<Longrightarrow> \<not> isl (getitem df name)"
proof (induction ks arbitrary: d)
  case Nil
  then show ?case by simp
next
  case (Cons a ks)
  obtain k' n' where a: "a = (k', n')" by (cases a)
  from Cons.prems(1) obtain c d' where
    c: "getitem df n' = Inr c" and rest: "build_dict df ks = Inr d'"
    unfolding a by (auto simp: then_do_Inr)
  show ?case
  proof (cases "(k, name) = a")
    case True
    with a c show ?thesis by simp
  next
    case False
    with Cons.prems(2) have "(k, name) \<in> set ks" by simp
    from Cons.IH[OF rest this] show ?thesis .
  qed
qed

lemma required_in_keys:
  "list_all (\<lambda>n. n \<in> set (map snd data_dict_keys)) required_columns"
  by code_simp

lemma required_not_derived:
  "list_all (\<lambda>n. n \<notin> set [''Availability'', ''Performance'', ''Quality'', ''OEE''])
     required_columns"
  by code_simp

lemma load_data_reads:
  assumes ld: "load_data df0 = Inr (df, dd)" and name: "name \<in> set required_columns"
  shows "\<not> isl (getitem df0 name)"
proof -
  from ld obtain df1 df2 df3 df4 df5 df6 df7 where
    s1: "set_availability df0 = Inr df1" and
    s2: "set_performance df1 = Inr df2" and
    s3: "set_quality df2 = Inr df3" and
    s4: "clip_column ''Availability'' df3 = Inr df4" and
    s5: "clip_column ''Performance'' df4 = Inr df5" and
    s6: "clip_column ''Quality'' df5 = Inr df6" and
    s7: "set_oee df6 = Inr df7" and
    s8: "fillna_oee df7 = Inr df" and
    bd: "build_dict df data_dict_keys = Inr dd"
    unfolding load_data_def then_do_Inr by auto
  from set_availability_reads(1)[OF s1] obtain c1 where f1: "df1 = setitem df0 ''Availability'' c1" ..
  from set_performance_reads(1)[OF s2] obtain c2 where f2: "df2 = setitem df1 ''Performance'' c2" ..
  from set_quality_reads(1)[OF s3] obtain c3 where f3: "df3 = setitem df2 ''Quality'' c3" ..
  from clip_column_writes[OF s4] obtain c4 where f4: "df4 = setitem df3 ''Availability'' c4" ..
  from clip_column_writes[OF s5] obtain c5 where f5: "df5 = setitem df4 ''Performance'' c5" ..
  from clip_column_writes[OF s6] obtain c6 where f6: "df6 = setitem df5 ''Quality'' c6" ..
  from set_oee_writes[OF s7] obtain c7 where f7: "df7 = setitem df6 ''OEE'' c7" ..
  from fillna_oee_writes[OF s8] obtain c8 where f8: "df = setitem df7 ''OEE'' c8" ..
  note fr = f8 f7 f6 f5 f4 f3 f2 f1
  have same: "isl (getitem df m) \<longleftrightarrow> isl (getitem df0 m)"
    if "m \<notin> {''Availability'', ''Performance'', ''Quality'', ''OEE''}" for m
    using that by (simp add: fr getitem_setitem)
  from name required_in_keys have "name \<in> snd ` set data_dict_keys"
    by (simp add: list_all_iff)
  then obtain k where "(k, name) \<in> set data_dict_keys" by force
  from build_dict_reads[OF bd this] have "\<not> isl (getitem df name)" .
  moreover from name required_not_derived
  have "name \<notin> {''Availability'', ''Performance'', ''Quality'', ''OEE''}"
    by (simp add: list_all_iff)
  ultimately show ?thesis using same by blast
qed

text \<open>
  C5: when the sheet lacks one of the ten columns that the program reads, \<open>load_data\<close> raises
  and returns neither a table nor a dictionary: there is no partial result.
\<close>

theorem missing_column_is_fatal:
  assumes "name \<in> set required_columns" and "name \<notin> fst ` set (columns df0)"
  shows "isl (load_data df0)"
proof (rule ccontr)
  assume "\<not> isl (load_data df0)"
  then obtain df dd where "load_data df0 = Inr (df, dd)"
    by (cases "load_data df0") auto
  from load_data_reads[OF this assms(1)] assms(2) show False
    by (simp add: isl_getitem)
qed

text \<open>
  C5 on a sheet that has every column but \<open>Units produced\<close>, which only the dictionary
  reads, after all four derived columns have been computed.
\<close>

theorem missing_column_is_fatal_witness:
  "''Units produced'' \<in> set required_columns \<and>
   ''Units produced'' \<notin> fst ` set (columns sheet_without_units) \<and>
   load_data sheet_without_units = Inl (KeyError ''Units produced'')"
proof -
  have r: "''Units produced'' \<in> set required_columns"
    by (simp add: required_columns_def)
  have m: "''Units produced'' \<notin> fst ` set (columns sheet_without_units)"
    by (simp add: sheet_without_units_def)
  have "load_data sheet_without_units = Inl (KeyError ''Units produced'')"
    using missing_column_is_fatal[OF r m]
    by (simp add: sheet_without_units_def eval_defs)
  with r m show ?thesis by blast
qed

section \<open>Filtering with every status and the threshold 0\<close>











section \<open>Looking a step up\<close>





lemma idle_table_computed: "computed_table idle_sheet = Inr idle_table"
  by (simp add: idle_sheet_def idle_table_def computed_table_def eval_defs)

section \<open>Summary of an empty selection\<close>

text \<open>
  C4: when a filter leaves no row, the summary does not compute any aggregate of the empty
  selection: each of its two columns is the explicit state that nothing matches, which is
  not a number, while a selection with rows never gives that state.
\<close>

theorem empty_selection_is_no_data:
  assumes "filtered_df df status_filter threshold = Inr fdf" and "nrows fdf = 0"
  shows "filtered_summary fdf = Inr No_steps_match \<and>
         performance_ranges fdf = Inr No_data_matches \<and>
         (\<forall>n avg units used. No_steps_match \<noteq> Summary n avg units used) \<and>
         (\<forall>lo hi best worst rate. No_data_matches \<noteq> Ranges lo hi best worst rate) \<and>
         (\<forall>other. 0 < nrows other \<longrightarrow>
            filtered_summary other \<noteq> Inr No_steps_match \<and>
            performance_ranges other \<noteq> Inr No_data_matches)"
proof -
  have empty: "filtered_summary fdf = Inr No_steps_match"
    "performance_ranges fdf = Inr No_data_matches"
    using assms(2) by (simp_all add: filtered_summary_def performance_ranges_def)
  have rows: "filtered_summary other \<noteq> Inr No_steps_match \<and>
      performance_ranges other \<noteq> Inr No_data_matches" if "0 < nrows other" for other
    using that
    by (auto simp: filtered_summary_def performance_ranges_def then_do_def split: sum.splits)
  from empty rows show ?thesis by simp
qed

lemmas aggregate_defs = filtered_summary_def performance_ranges_def series_sum_def series_mean_def
  series_min_def series_max_def extremum_def dropna_def idx_extremum_def loc_def cell_at_def
  getitem_def then_do_def nrows_def fgt_def

text \<open>
  C4 on the table of \<open>idle_sheet\<close>, whose only row has an OEE of 0: a threshold of 50
  percent leaves no row and the summary says so, while the summary of the whole table gives
  the average OEE 0.
\<close>

theorem empty_selection_is_no_data_witness:
  "filtered_df idle_table [Txt ''Running''] (oee_threshold 50) = Inr (getrows idle_table [False]) \<and>
   nrows (getrows idle_table [False]) = 0 \<and>
   filtered_summary (getrows idle_table [False]) = Inr No_steps_match \<and>
   performance_ranges (getrows idle_table [False]) = Inr No_data_matches \<and>
   0 < nrows idle_table \<and>
   filtered_summary idle_table = Inr (Summary 1 (Fin 0) (Fin 5) (Fin 10)) \<and>
   performance_ranges idle_table
     = Inr (Ranges (Fin 0) (Fin 0) (Txt ''Cutting'') (Txt ''Cutting'') (Fin 10))"
proof -
  have f: "filtered_df idle_table [Txt ''Running''] (oee_threshold 50)
      = Inr (getrows idle_table [False])"
    by (simp add: idle_table_def filtered_df_def getitem_def then_do_def series_ge_def
        oee_threshold_def fge_def mask_and_def isin_def)
  have n: "nrows (getrows idle_table [False]) = 0"
    by (simp add: idle_table_def getrows_def select_def nrows_def)
  have s: "filtered_summary idle_table = Inr (Summary 1 (Fin 0) (Fin 5) (Fin 10))"
    by (simp add: idle_table_def aggregate_defs)
  have r: "performance_ranges idle_table
      = Inr (Ranges (Fin 0) (Fin 0) (Txt ''Cutting'') (Txt ''Cutting'') (Fin 10))"
    by (simp add: idle_table_def aggregate_defs)
  have p: "0 < nrows idle_table"
    by (simp add: idle_table_def nrows_def)
  show ?thesis
    using empty_selection_is_no_data[OF f n] f n s r p by simp
qed

section \<open>Waste percentage\<close>



section \<open>Rows are computed independently\<close>

lemma update_map_values:
  "map (\<lambda>(name, c). (name, g c)) (AList.update k v al)
     = AList.update k (g v) (map (\<lambda>(name, c). (name, g c)) al)"
  by (induction al) auto

lemma take_rows_setitem:
  "take_rows p (setitem df n c) = setitem (take_rows p df) n (pick p c)"
  by (simp add: take_rows_def setitem_def update_map_values)

lemma map_of_map_values:
  "map_of (map (\<lambda>(name, c). (name, g c)) al) k = map_option g (map_of al k)"
  by (induction al) auto

lemma getitem_take_rows:
  "getitem df n = Inr c \<Longrightarrow> getitem (take_rows p df) n = Inr (pick p c)"
  by (auto simp: getitem_def take_rows_def map_of_map_values split: option.splits)

lemma isl_getitem_take_rows: "isl (getitem (take_rows p df) n) = isl (getitem df n)"
  by (auto simp: getitem_def take_rows_def map_of_map_values split: option.splits)

lemma nrows_take_rows: "nrows (take_rows p df) = length p"
  by (simp add: nrows_def take_rows_def pick_def)

lemma length_pick: "length (pick p xs) = length p"
  by (simp add: pick_def)

lemma pick_map:
  "\<forall>k \<in> set p. k < length xs \<Longrightarrow> pick p (map f xs) = map f (pick p xs)"
  by (induction p) (simp_all add: pick_def)

lemma pick_map2:
  "\<forall>k \<in> set p. k < length xs \<Longrightarrow> length xs = length ys \<Longrightarrow>
   pick p (map2 f xs ys) = map2 f (pick p xs) (pick p ys)"
  by (induction p) (simp_all add: pick_def)

lemma pick_Num: "\<forall>k \<in> set p. k < length xs \<Longrightarrow> pick p (map Num xs) = map Num (pick p xs)"
  by (rule pick_map)

lemma pick_Num_map2:
  "\<forall>k \<in> set p. k < length xs \<Longrightarrow> length xs = length ys \<Longrightarrow>
   pick p (map Num (map2 f xs ys)) = map Num (map2 f (pick p xs) (pick p ys))"
  by (induction p) (simp_all add: pick_def)

lemma pick_Num_map:
  "\<forall>k \<in> set p. k < length xs \<Longrightarrow> pick p (map Num (map f xs)) = map Num (map f (pick p xs))"
  by (induction p) (simp_all add: pick_def)

lemma set_availability_Num:
  assumes "getitem df ''Current Lot Run Time (Hours)'' = Inr (map Num cs)"
    and "getitem df ''Expected Lot Run Time (Hours)'' = Inr (map Num es)"
  shows "set_availability df = Inr (setitem df ''Availability'' (map Num (map2 fdiv cs es)))"
  by (simp only: set_availability_def assms then_do_def series_arith_Num sum.case)

lemma set_performance_Num:
  assumes "getitem df ''Expected Lot Run Time (Hours)'' = Inr (map Num es)"
    and "getitem df ''Process Down time'' = Inr (map Num ds)"
  shows "set_performance df
    = Inr (setitem df ''Performance'' (map Num (map2 fdiv (map2 fsub es ds) es)))"
  by (simp only: set_performance_def assms then_do_def series_arith_Num sum.case)

lemma set_quality_Num:
  assumes "getitem df ''Failure Rate'' = Inr (map Num rs)"
  shows "set_quality df = Inr (setitem df ''Quality'' (map Num (map (fsub (Fin 1)) rs)))"
  by (simp only: set_quality_def assms then_do_def scalar_arith_Num sum.case)

lemma set_availability_take_rows:
  assumes wf: "wf_frame df" and p: "\<forall>k \<in> set p. k < nrows df"
    and st: "set_availability df = Inr df'"
  shows "set_availability (take_rows p df) = Inr (take_rows p df')"
    and "wf_frame df'" and "nrows df' = nrows df"
proof -
  from set_availability_Inr[OF wf st] obtain cs es where
    cs: "getitem df ''Current Lot Run Time (Hours)'' = Inr (map Num cs)" and
    es: "getitem df ''Expected Lot Run Time (Hours)'' = Inr (map Num es)" and
    len: "length cs = nrows df" "length es = nrows df" and
    df': "df' = setitem df ''Availability'' (map Num (map2 fdiv cs es))"
    by blast
  have pc: "\<forall>k \<in> set p. k < length cs" and pe: "\<forall>k \<in> set p. k < length es"
    using p len by simp_all
  have "getitem (take_rows p df) ''Current Lot Run Time (Hours)'' = Inr (map Num (pick p cs))"
    using getitem_take_rows[OF cs, of p] pc by (simp add: pick_map)
  moreover
  have "getitem (take_rows p df) ''Expected Lot Run Time (Hours)'' = Inr (map Num (pick p es))"
    using getitem_take_rows[OF es, of p] pe by (simp add: pick_map)
  ultimately have "set_availability (take_rows p df)
      = Inr (setitem (take_rows p df) ''Availability'' (map Num (map2 fdiv (pick p cs) (pick p es))))"
    by (rule set_availability_Num)
  also have "map Num (map2 fdiv (pick p cs) (pick p es)) = pick p (map Num (map2 fdiv cs es))"
    using pc len by (simp only: pick_Num_map2)
  finally show "set_availability (take_rows p df) = Inr (take_rows p df')"
    by (simp add: df' take_rows_setitem)
  show "wf_frame df'" unfolding df' using wf len by (simp add: wf_setitem)
  show "nrows df' = nrows df" by (simp add: df' nrows_setitem)
qed

lemma set_performance_take_rows:
  assumes wf: "wf_frame df" and p: "\<forall>k \<in> set p. k < nrows df"
    and st: "set_performance df = Inr df'"
  shows "set_performance (take_rows p df) = Inr (take_rows p df')"
    and "wf_frame df'" and "nrows df' = nrows df"
proof -
  from set_performance_Inr[OF wf st] obtain es ds where
    es: "getitem df ''Expected Lot Run Time (Hours)'' = Inr (map Num es)" and
    ds: "getitem df ''Process Down time'' = Inr (map Num ds)" and
    len: "length es = nrows df" "length ds = nrows df" and
    df': "df' = setitem df ''Performance'' (map Num (map2 fdiv (map2 fsub es ds) es))"
    by blast
  have pe: "\<forall>k \<in> set p. k < length es" and pd: "\<forall>k \<in> set p. k < length ds"
    and pu: "\<forall>k \<in> set p. k < length (map2 fsub es ds)"
    using p len by simp_all
  have "getitem (take_rows p df) ''Expected Lot Run Time (Hours)'' = Inr (map Num (pick p es))"
    using getitem_take_rows[OF es, of p] pe by (simp add: pick_map)
  moreover
  have "getitem (take_rows p df) ''Process Down time'' = Inr (map Num (pick p ds))"
    using getitem_take_rows[OF ds, of p] pd by (simp add: pick_map)
  ultimately have "set_performance (take_rows p df)
      = Inr (setitem (take_rows p df) ''Performance''
          (map Num (map2 fdiv (map2 fsub (pick p es) (pick p ds)) (pick p es))))"
    by (rule set_performance_Num)
  also have "map2 fsub (pick p es) (pick p ds) = pick p (map2 fsub es ds)"
    using pe len by (simp only: pick_map2)
  also have "map Num (map2 fdiv (pick p (map2 fsub es ds)) (pick p es))
      = pick p (map Num (map2 fdiv (map2 fsub es ds) es))"
    using pick_Num_map2[OF pu, of es fdiv] len by simp
  finally show "set_performance (take_rows p df) = Inr (take_rows p df')"
    by (simp add: df' take_rows_setitem)
  show "wf_frame df'" unfolding df' using wf len by (simp add: wf_setitem)
  show "nrows df' = nrows df" by (simp add: df' nrows_setitem)
qed

lemma set_quality_take_rows:
  assumes wf: "wf_frame df" and p: "\<forall>k \<in> set p. k < nrows df"
    and st: "set_quality df = Inr df'"
  shows "set_quality (take_rows p df) = Inr (take_rows p df')"
    and "wf_frame df'" and "nrows df' = nrows df"
proof -
  from set_quality_Inr[OF wf st] obtain rs where
    rs: "getitem df ''Failure Rate'' = Inr (map Num rs)" and
    len: "length rs = nrows df" and
    df': "df' = setitem df ''Quality'' (map Num (map (fsub (Fin 1)) rs))"
    by blast
  have pr: "\<forall>k \<in> set p. k < length rs"
    using p len by simp
  have "getitem (take_rows p df) ''Failure Rate'' = Inr (map Num (pick p rs))"
    using getitem_take_rows[OF rs, of p] pr by (simp add: pick_map)
  then have "set_quality (take_rows p df)
      = Inr (setitem (take_rows p df) ''Quality'' (map Num (map (fsub (Fin 1)) (pick p rs))))"
    by (rule set_quality_Num)
  also have "map Num (map (fsub (Fin 1)) (pick p rs)) = pick p (map Num (map (fsub (Fin 1)) rs))"
    using pr by (simp only: pick_Num_map)
  finally show "set_quality (take_rows p df) = Inr (take_rows p df')"
    by (simp add: df' take_rows_setitem)
  show "wf_frame df'" unfolding df' using wf len by (simp add: wf_setitem)
  show "nrows df' = nrows df" by (simp add: df' nrows_setitem)
qed

lemma clip_column_take_rows:
  assumes wf: "wf_frame df" and p: "\<forall>k \<in> set p. k < nrows df"
    and st: "clip_column name df = Inr df'"
  shows "clip_column name (take_rows p df) = Inr (take_rows p df')"
    and "wf_frame df'" and "nrows df' = nrows df"
proof -
  from clip_column_Inr[OF st] obtain as where
    as: "getitem df name = Inr (map Num as)" and
    df': "df' = setitem df name (map Num (map (clip (Fin 0) (Fin 1)) as))"
    by blast
  have len: "length as = nrows df"
    using getitem_length[OF wf as] by simp
  have pa: "\<forall>k \<in> set p. k < length as"
    using p len by simp
  have "getitem (take_rows p df) name = Inr (map Num (pick p as))"
    using getitem_take_rows[OF as, of p] pa by (simp add: pick_map)
  then have "clip_column name (take_rows p df)
      = Inr (setitem (take_rows p df) name (map Num (map (clip (Fin 0) (Fin 1)) (pick p as))))"
    by (rule clip_column_Num)
  also have "map Num (map (clip (Fin 0) (Fin 1)) (pick p as))
      = pick p (map Num (map (clip (Fin 0) (Fin 1)) as))"
    using pa by (simp only: pick_Num_map)
  finally show "clip_column name (take_rows p df) = Inr (take_rows p df')"
    by (simp add: df' take_rows_setitem)
  show "wf_frame df'" unfolding df' using wf len by (simp add: wf_setitem)
  show "nrows df' = nrows df" by (simp add: df' nrows_setitem)
qed

lemma set_oee_Inr:
  assumes "wf_frame df" and "set_oee df = Inr df'"
  obtains av pf ql where
    "getitem df ''Availability'' = Inr (map Num av)"
    "getitem df ''Performance'' = Inr (map Num pf)"
    "getitem df ''Quality'' = Inr (map Num ql)"
    "length av = nrows df" "length pf = nrows df" "length ql = nrows df"
    "df' = setitem df ''OEE'' (map Num (map2 fmul (map2 fmul av pf) ql))"
proof -
  from assms(2) obtain a p ap q oee where
    a: "getitem df ''Availability'' = Inr a" and
    p: "getitem df ''Performance'' = Inr p" and
    ap: "series_arith fmul a p = Inr ap" and
    q: "getitem df ''Quality'' = Inr q" and
    oee: "series_arith fmul ap q = Inr oee" and
    df': "df' = setitem df ''OEE'' oee"
    unfolding set_oee_def then_do_Inr by auto
  have len: "length a = nrows df" "length p = nrows df" "length q = nrows df"
    using getitem_length[OF assms(1)] a p q by auto
  then have "length a = length p" by simp
  from series_arith_Inr[OF ap this] obtain av pf where
    avpf: "a = map Num av" "p = map Num pf" "length av = length pf"
      "ap = map Num (map2 fmul av pf)"
    by blast
  have "length ap = length q" using avpf len by simp
  from series_arith_Inr[OF oee this] obtain xs ql where
    xq: "ap = map Num xs" "q = map Num ql" "oee = map Num (map2 fmul xs ql)"
    by blast
  from xq(1) avpf(4) have "map Num xs = map Num (map2 fmul av pf)" by (rule trans[OF sym])
  then have "xs = map2 fmul av pf" by (simp only: map_Num_eq)
  with xq have "oee = map Num (map2 fmul (map2 fmul av pf) ql)" by simp
  with a p q avpf xq len df' show thesis by (intro that[of av pf ql]) simp_all
qed

lemma set_oee_take_rows:
  assumes wf: "wf_frame df" and p: "\<forall>k \<in> set p. k < nrows df"
    and st: "set_oee df = Inr df'"
  shows "set_oee (take_rows p df) = Inr (take_rows p df')"
    and "wf_frame df'" and "nrows df' = nrows df"
proof -
  from set_oee_Inr[OF wf st] obtain av pf ql where
    av: "getitem df ''Availability'' = Inr (map Num av)" and
    pf: "getitem df ''Performance'' = Inr (map Num pf)" and
    ql: "getitem df ''Quality'' = Inr (map Num ql)" and
    len: "length av = nrows df" "length pf = nrows df" "length ql = nrows df" and
    df': "df' = setitem df ''OEE'' (map Num (map2 fmul (map2 fmul av pf) ql))"
    by blast
  have pa: "\<forall>k \<in> set p. k < length av" and pp: "\<forall>k \<in> set p. k < length pf"
    and pq: "\<forall>k \<in> set p. k < length ql"
    and pu: "\<forall>k \<in> set p. k < length (map2 fmul av pf)"
    using p len by simp_all
  have g1: "getitem (take_rows p df) ''Availability'' = Inr (map Num (pick p av))"
    using getitem_take_rows[OF av, of p] pa by (simp add: pick_map)
  have g2: "getitem (take_rows p df) ''Performance'' = Inr (map Num (pick p pf))"
    using getitem_take_rows[OF pf, of p] pp by (simp add: pick_map)
  have g3: "getitem (take_rows p df) ''Quality'' = Inr (map Num (pick p ql))"
    using getitem_take_rows[OF ql, of p] pq by (simp add: pick_map)
  have "set_oee (take_rows p df)
      = Inr (setitem (take_rows p df) ''OEE''
          (map Num (map2 fmul (map2 fmul (pick p av) (pick p pf)) (pick p ql))))"
    by (rule set_oee_Num[OF g1 g2 g3])
  also have "map2 fmul (pick p av) (pick p pf) = pick p (map2 fmul av pf)"
    using pa len by (simp only: pick_map2)
  also have "map Num (map2 fmul (pick p (map2 fmul av pf)) (pick p ql))
      = pick p (map Num (map2 fmul (map2 fmul av pf) ql))"
    using pick_Num_map2[OF pu, of ql fmul] len by simp
  finally show "set_oee (take_rows p df) = Inr (take_rows p df')"
    by (simp add: df' take_rows_setitem)
  show "wf_frame df'" unfolding df' using wf len by (simp add: wf_setitem)
  show "nrows df' = nrows df" by (simp add: df' nrows_setitem)
qed

lemma fillna_oee_take_rows:
  assumes wf: "wf_frame df" and p: "\<forall>k \<in> set p. k < nrows df"
    and st: "fillna_oee df = Inr df'"
  shows "fillna_oee (take_rows p df) = Inr (take_rows p df')"
    and "wf_frame df'" and "nrows df' = nrows df"
proof -
  from st obtain oee where
    oee: "getitem df ''OEE'' = Inr oee" and
    df': "df' = setitem df ''OEE'' (series_fillna (Fin 0) oee)"
    unfolding fillna_oee_def then_do_Inr by auto
  have len: "length oee = nrows df"
    using getitem_length[OF wf oee] by simp
  have po: "\<forall>k \<in> set p. k < length oee"
    using p len by simp
  have "series_fillna (Fin 0) (pick p oee) = pick p (series_fillna (Fin 0) oee)"
    unfolding series_fillna_def using po by (simp only: pick_map)
  then show "fillna_oee (take_rows p df) = Inr (take_rows p df')"
    by (simp add: fillna_oee_def getitem_take_rows[OF oee] then_do_def df' take_rows_setitem)
  show "wf_frame df'" unfolding df' using wf len by (simp add: wf_setitem series_fillna_def)
  show "nrows df' = nrows df" by (simp add: df' nrows_setitem)
qed

lemma build_dict_take_rows:
  "build_dict df ks = Inr d \<Longrightarrow> \<exists>d'. build_dict (take_rows p df) ks = Inr d'"
proof (induction ks arbitrary: d)
  case Nil
  then show ?case by simp
next
  case (Cons a ks)
  obtain k n where a: "a = (k, n)" by (cases a)
  from Cons.prems obtain c d0 where
    c: "getitem df n = Inr c" and rest: "build_dict df ks = Inr d0"
    unfolding a by (auto simp: then_do_Inr)
  from Cons.IH[OF rest] obtain d1 where "build_dict (take_rows p df) ks = Inr d1" by blast
  with getitem_take_rows[OF c, of p] show ?case
    by (simp add: a then_do_def)
qed

lemma load_data_take_rows:
  assumes wf: "wf_frame df0" and p: "\<forall>k \<in> set p. k < nrows df0"
    and ld: "load_data df0 = Inr (df, dd)"
  shows "\<exists>dd'. load_data (take_rows p df0) = Inr (take_rows p df, dd')"
proof -
  from ld obtain df1 df2 df3 df4 df5 df6 df7 where
    s1: "set_availability df0 = Inr df1" and
    s2: "set_performance df1 = Inr df2" and
    s3: "set_quality df2 = Inr df3" and
    s4: "clip_column ''Availability'' df3 = Inr df4" and
    s5: "clip_column ''Performance'' df4 = Inr df5" and
    s6: "clip_column ''Quality'' df5 = Inr df6" and
    s7: "set_oee df6 = Inr df7" and
    s8: "fillna_oee df7 = Inr df" and
    bd: "build_dict df data_dict_keys = Inr dd"
    unfolding load_data_def then_do_Inr by auto
  note t1 = set_availability_take_rows[OF wf p s1]
  have p1: "\<forall>k \<in> set p. k < nrows df1" using p t1(3) by simp
  note t2 = set_performance_take_rows[OF t1(2) p1 s2]
  have p2: "\<forall>k \<in> set p. k < nrows df2" using p1 t2(3) by simp
  note t3 = set_quality_take_rows[OF t2(2) p2 s3]
  have p3: "\<forall>k \<in> set p. k < nrows df3" using p2 t3(3) by simp
  note t4 = clip_column_take_rows[OF t3(2) p3 s4]
  have p4: "\<forall>k \<in> set p. k < nrows df4" using p3 t4(3) by simp
  note t5 = clip_column_take_rows[OF t4(2) p4 s5]
  have p5: "\<forall>k \<in> set p. k < nrows df5" using p4 t5(3) by simp
  note t6 = clip_column_take_rows[OF t5(2) p5 s6]
  have p6: "\<forall>k \<in> set p. k < nrows df6" using p5 t6(3) by simp
  note t7 = set_oee_take_rows[OF t6(2) p6 s7]
  have p7: "\<forall>k \<in> set p. k < nrows df7" using p6 t7(3) by simp
  note t8 = fillna_oee_take_rows[OF t7(2) p7 s8]
  from build_dict_take_rows[OF bd, of p] obtain dd' where
    bd': "build_dict (take_rows p df) data_dict_keys = Inr dd'" by blast
  have "load_data (take_rows p df0) = Inr (take_rows p df, dd')"
    by (simp add: load_data_def then_do_def t1(1) t2(1) t3(1) t4(1) t5(1) t6(1) t7(1) t8(1) bd')
  then show ?thesis by blast
qed

text \<open>
  C7: the derived values of a row depend on that row only. When a row of one sheet and a row of
  another sheet have the same cells, their availability, performance, quality and OEE are the
  same, whatever the other rows are; and computing the table of the rows taken in any order
  \<open>p\<close> gives the rows of the computed table in that order.
\<close>

theorem rows_are_independent:
  assumes "wf_frame a" and "\<not> isl (load_data a)" and "wf_frame b" and "\<not> isl (load_data b)"
    and "i < nrows a" and "j < nrows b"
    and "\<forall>name \<in> set required_columns. cell_at a name i = cell_at b name j"
    and "\<forall>k \<in> set p. k < nrows a"
  shows "(\<forall>name \<in> {''Availability'', ''Performance'', ''Quality'', ''OEE''}.
            computed a name i = computed b name j) \<and>
         computed_table (take_rows p a) = then_do (computed_table a) (\<lambda>df. Inr (take_rows p df))"
proof -
  from computed_rows[OF assms(1,2,5)] obtain c e d r av pf ql where
    ra: "cell_at a ''Current Lot Run Time (Hours)'' i = Inr (Num c)"
      "cell_at a ''Expected Lot Run Time (Hours)'' i = Inr (Num e)"
      "cell_at a ''Process Down time'' i = Inr (Num d)"
      "cell_at a ''Failure Rate'' i = Inr (Num r)" and
    da: "av = clip (Fin 0) (Fin 1) (fdiv c e)"
      "pf = clip (Fin 0) (Fin 1) (fdiv (fsub e d) e)"
      "ql = clip (Fin 0) (Fin 1) (fsub (Fin 1) r)" and
    oa: "computed a ''Availability'' i = Inr (Num av)"
      "computed a ''Performance'' i = Inr (Num pf)"
      "computed a ''Quality'' i = Inr (Num ql)"
      "computed a ''OEE'' i = Inr (Num (fillna (Fin 0) (fmul (fmul av pf) ql)))"
    by metis
  from computed_rows[OF assms(3,4,6)] obtain c' e' d' r' av' pf' ql' where
    rb: "cell_at b ''Current Lot Run Time (Hours)'' j = Inr (Num c')"
      "cell_at b ''Expected Lot Run Time (Hours)'' j = Inr (Num e')"
      "cell_at b ''Process Down time'' j = Inr (Num d')"
      "cell_at b ''Failure Rate'' j = Inr (Num r')" and
    db: "av' = clip (Fin 0) (Fin 1) (fdiv c' e')"
      "pf' = clip (Fin 0) (Fin 1) (fdiv (fsub e' d') e')"
      "ql' = clip (Fin 0) (Fin 1) (fsub (Fin 1) r')" and
    ob: "computed b ''Availability'' j = Inr (Num av')"
      "computed b ''Performance'' j = Inr (Num pf')"
      "computed b ''Quality'' j = Inr (Num ql')"
      "computed b ''OEE'' j = Inr (Num (fillna (Fin 0) (fmul (fmul av' pf') ql')))"
    by metis
  have same: "cell_at a ''Current Lot Run Time (Hours)'' i = cell_at b ''Current Lot Run Time (Hours)'' j"
    "cell_at a ''Expected Lot Run Time (Hours)'' i = cell_at b ''Expected Lot Run Time (Hours)'' j"
    "cell_at a ''Process Down time'' i = cell_at b ''Process Down time'' j"
    "cell_at a ''Failure Rate'' i = cell_at b ''Failure Rate'' j"
    using assms(7) by (simp_all add: required_columns_def)
  with ra rb have "c' = c" "e' = e" "d' = d" "r' = r" by simp_all
  with da db have "av' = av" "pf' = pf" "ql' = ql" by simp_all
  with oa ob have first: "\<forall>name \<in> {''Availability'', ''Performance'', ''Quality'', ''OEE''}.
      computed a name i = computed b name j"
    by simp
  from assms(2) obtain df dd where ld: "load_data a = Inr (df, dd)"
    by (cases "load_data a") auto
  from load_data_take_rows[OF assms(1,8) ld] obtain dd' where
    "load_data (take_rows p a) = Inr (take_rows p df, dd')" by blast
  with ld have "computed_table (take_rows p a)
      = then_do (computed_table a) (\<lambda>df. Inr (take_rows p df))"
    by (simp add: computed_table_def then_do_def)
  with first show ?thesis by blast
qed

text \<open>
  C7 on the example sheet and the sheet of its rows in reverse order: the first row of the one
  is the last row of the other.
\<close>

theorem rows_are_independent_witness:
  "wf_frame example_sheet \<and> \<not> isl (load_data example_sheet) \<and>
   wf_frame (take_rows [3, 2, 1, 0] example_sheet) \<and>
   \<not> isl (load_data (take_rows [3, 2, 1, 0] example_sheet)) \<and>
   0 < nrows example_sheet \<and> 3 < nrows (take_rows [3, 2, 1, 0] example_sheet) \<and>
   list_all (\<lambda>name. cell_at example_sheet name 0
                        = cell_at (take_rows [3, 2, 1, 0] example_sheet) name 3)
     required_columns \<and>
   list_all (\<lambda>k. k < nrows example_sheet) [3, 2, 1, 0] \<and>
   list_all (\<lambda>name. computed example_sheet name 0
                        = computed (take_rows [3, 2, 1, 0] example_sheet) name 3)
     [''Availability'', ''Performance'', ''Quality'', ''OEE''] \<and>
   computed_table (take_rows [3, 2, 1, 0] example_sheet)
     = then_do (computed_table example_sheet) (\<lambda>df. Inr (take_rows [3, 2, 1, 0] df))"
proof -
  have wb: "wf_frame (take_rows [3, 2, 1, 0] example_sheet)"
    by (simp add: example_sheet_def sheet_def take_rows_def pick_def wf_frame_def nrows_def)
  have lb: "\<not> isl (load_data (take_rows [3, 2, 1, 0] example_sheet))"
    by (simp add: example_sheet_def take_rows_def pick_def eval_defs)
  have i: "0 < nrows example_sheet" by (simp add: example_nrows)
  have j: "3 < nrows (take_rows [3, 2, 1, 0] example_sheet)"
    by (simp add: nrows_take_rows)
  have same: "\<forall>name \<in> set required_columns.
      cell_at example_sheet name 0 = cell_at (take_rows [3, 2, 1, 0] example_sheet) name 3"
    by (simp add: required_columns_def example_sheet_def take_rows_def pick_def eval_defs)
  have p: "\<forall>k \<in> set [3, 2, 1, 0]. k < nrows example_sheet"
    by (simp add: example_nrows)
  from rows_are_independent[OF example_wf example_loads wb lb i j same p]
  have "list_all (\<lambda>name. computed example_sheet name 0
                        = computed (take_rows [3, 2, 1, 0] example_sheet) name 3)
      [''Availability'', ''Performance'', ''Quality'', ''OEE'']"
    and "computed_table (take_rows [3, 2, 1, 0] example_sheet)
      = then_do (computed_table example_sheet) (\<lambda>df. Inr (take_rows [3, 2, 1, 0] df))"
    by simp_all
  moreover from same have "list_all (\<lambda>name. cell_at example_sheet name 0
      = cell_at (take_rows [3, 2, 1, 0] example_sheet) name 3) required_columns"
    by (simp only: list_all_iff)
  moreover from p have "list_all (\<lambda>k. k < nrows example_sheet) [3, 2, 1, 0]"
    by (simp only: list_all_iff)
  ultimately show ?thesis
    using example_wf example_loads wb lb i j by blast
qed

section \<open>The worked example in exact arithmetic\<close>

text \<open>
  The first row of the example sheet has a current run time of 8, an expected run time of 10,
  a down time of 1 and a failure rate of 0.02. In the exact arithmetic of this model its
  availability is 0.8, its performance 0.9, its quality 0.98 and its OEE 0.7056. (In float64
  every one of these is rounded, and the rounded product differs from the float64 nearest
  0.7056 in its last bit.)
\<close>

lemma worked_example_exact:
  "computed example_sheet ''Availability'' 0 = Inr (Num (Fin (8 / 10))) \<and>
   computed example_sheet ''Performance'' 0 = Inr (Num (Fin (9 / 10))) \<and>
   computed example_sheet ''Quality'' 0 = Inr (Num (Fin (98 / 100))) \<and>
   computed example_sheet ''OEE'' 0 = Inr (Num (Fin (7056 / 10000)))"
  by (simp add: example_sheet_def eval_defs)

end
